theory Spec2Isabelle
  imports Complex_Main
begin

section \<open>Cart-pole playground: dynamics, integrator, contact, controller, metrics\<close>

text \<open>
  The Python sources compute with IEEE doubles and numpy arrays of four doubles.
  The smooth arithmetic of the code (sums, products, quotients, \<open>sin\<close>, \<open>cos\<close>, comparisons
  of quantities that are not at a branch cut) is read over the real numbers, so that the
  algebraic content of the code (which quantity enters which formula, which guard fires,
  which field is written) is stated exactly.

  \<open>utils.wrap_angle\<close> is different: its result jumps by a whole turn at the branch cut, so
  the rounding of its three operations decides which end of the interval it returns.
  It is therefore modelled in doubles: \<open>math.pi\<close> is the double constant, and every operation
  that rounds in the program rounds in the model.
\<close>

subsection \<open>IEEE doubles: \<open>math.pi\<close> and rounding to nearest\<close>

text \<open>\<open>math.pi\<close> is the double nearest to the circle constant, \<open>884279719003555 / 2 ^ 48\<close>.\<close>

definition math_pi :: real where
  "math_pi = 884279719003555 / 281474976710656"

text \<open>
  The exponent of the binade of a nonzero real, \<open>2 ^ e \<le> |x| < 2 ^ (e + 1)\<close>, and the
  spacing of the doubles in that binade: 53 significant bits, and the fixed spacing
  \<open>2 ^ (- 1074)\<close> of the subnormal range below \<open>2 ^ (- 1022)\<close>.
\<close>

definition binade :: "real \<Rightarrow> int" where
  "binade x = floor (log 2 \<bar>x\<bar>)"

definition ulp :: "real \<Rightarrow> real" where
  "ulp x = 2 powr of_int (max (binade x) (- 1022) - 52)"

text \<open>The nearest integer, a tie going to the even neighbour.\<close>

definition round_even :: "real \<Rightarrow> int" where
  "round_even y =
     (let f = floor y
      in if y - of_int f < 1 / 2 then f
         else if 1 / 2 < y - of_int f then f + 1
         else if even f then f else f + 1)"

text \<open>
  Rounding of a real result to the nearest double, ties to even (the IEEE default mode,
  which CPython uses). Overflow to infinity is not modelled: the function is used on
  results far below the largest finite double.
\<close>

definition round_double :: "real \<Rightarrow> real" where
  "round_double x = (if x = 0 then 0 else ulp x * of_int (round_even (x / ulp x)))"

subsection \<open>params.py: the shared parameter object \<open>P\<close>\<close>

text \<open>
  \<open>P = Params()\<close> is built once from the dataclass defaults and no source file assigns
  to one of its fields, so every \<open>P.name\<close> is a constant \<open>P_name\<close>.
\<close>

definition P_M :: real where "P_M = 1"
definition P_m :: real where "P_m = 2 / 10"
definition P_l :: real where "P_l = 5 / 10"
definition P_g :: real where "P_g = 981 / 100"
definition P_cart_damping :: real where "P_cart_damping = 5 / 100"
definition P_pole_damping :: real where "P_pole_damping = 2 / 100"
definition P_max_force :: real where "P_max_force = 50"
definition P_max_mouse_force :: real where "P_max_mouse_force = 50"
definition P_dt :: real where "P_dt = 1 / 240"
definition P_substeps :: nat where "P_substeps = 2"
definition P_pixels_per_meter :: real where "P_pixels_per_meter = 170"
definition P_cart_width_m :: real where "P_cart_width_m = 55 / 100"
definition P_settle_x_thresh :: real where "P_settle_x_thresh = 5 / 100"
definition P_settle_theta_thresh :: real where "P_settle_theta_thresh = 3 * (math_pi / 180)"
definition P_settle_hold_time :: real where "P_settle_hold_time = 1"

subsection \<open>utils.py\<close>

text \<open>C's \<open>fmod\<close>: the remainder of the quotient truncated towards zero; it is exact in doubles.\<close>

definition c_trunc :: "real \<Rightarrow> int" where
  "c_trunc v = (if 0 \<le> v then floor v else ceiling v)"

definition fmod :: "real \<Rightarrow> real \<Rightarrow> real" where
  "fmod a b = a - b * of_int (c_trunc (a / b))"

text \<open>
  Python's \<open>a % b\<close> on floats (CPython's \<open>float_rem\<close>): \<open>mod = fmod(a, b)\<close>; when \<open>mod\<close> is
  nonzero and its sign differs from the sign of \<open>b\<close>, \<open>mod += b\<close>, a double addition that
  rounds; when \<open>mod\<close> is zero the result is a zero. A zero divisor raises
  \<open>ZeroDivisionError\<close>; the only divisor the sources use is \<open>2 * math.pi\<close>, which is not zero.
\<close>

definition float_mod :: "real \<Rightarrow> real \<Rightarrow> real" where
  "float_mod a b =
     (let md = fmod a b
      in if md \<noteq> 0
         then (if (b < 0) \<noteq> (md < 0) then round_double (md + b) else md)
         else 0)"

text \<open>
  \<open>(theta + math.pi) % (2 * math.pi) - math.pi\<close>: the sum rounds, \<open>2 * math.pi\<close> is exact
  (a doubling), the remainder is \<open>float_mod\<close>, and the difference rounds.
\<close>

definition wrap_angle :: "real \<Rightarrow> real" where
  "wrap_angle theta =
     round_double (float_mod (round_double (theta + math_pi)) (2 * math_pi) - math_pi)"

definition clamp :: "real \<Rightarrow> real \<Rightarrow> real \<Rightarrow> real" where
  "clamp v lo hi = max lo (min hi v)"

subsection \<open>numpy arrays of length four\<close>

text \<open>
  The state and its derivative are \<open>np.array([x, x_dot, theta, theta_dot])\<close>. Addition of
  two arrays and the product of a scalar with an array are elementwise.
\<close>

type_synonym vec4 = "real \<times> real \<times> real \<times> real"

fun st0 :: "vec4 \<Rightarrow> real" where "st0 (a, b, c, d) = a"
fun st1 :: "vec4 \<Rightarrow> real" where "st1 (a, b, c, d) = b"
fun st2 :: "vec4 \<Rightarrow> real" where "st2 (a, b, c, d) = c"
fun st3 :: "vec4 \<Rightarrow> real" where "st3 (a, b, c, d) = d"

fun set0 :: "vec4 \<Rightarrow> real \<Rightarrow> vec4" where "set0 (a, b, c, d) v = (v, b, c, d)"
fun set1 :: "vec4 \<Rightarrow> real \<Rightarrow> vec4" where "set1 (a, b, c, d) v = (a, v, c, d)"
fun set2 :: "vec4 \<Rightarrow> real \<Rightarrow> vec4" where "set2 (a, b, c, d) v = (a, b, v, d)"

fun vadd :: "vec4 \<Rightarrow> vec4 \<Rightarrow> vec4" where
  "vadd (a, b, c, d) (a', b', c', d') = (a + a', b + b', c + c', d + d')"

fun smul :: "real \<Rightarrow> vec4 \<Rightarrow> vec4" where
  "smul k (a, b, c, d) = (k * a, k * b, k * c, k * d)"

subsection \<open>dynamics.py\<close>

fun dynamics_free :: "vec4 \<Rightarrow> real \<Rightarrow> real \<Rightarrow> real \<Rightarrow> vec4" where
  "dynamics_free (x, x_dot, theta, theta_dot) force cart_damp pole_damp =
     (let force_eff = force - cart_damp * x_dot;
          s = sin theta;
          c = cos theta;
          tau_damp = - pole_damp * theta_dot;
          theta_dd_extra = tau_damp / (P_m * (P_l ^ 2) + 1 / 10 ^ 9);
          temp = (force_eff + P_m * P_l * (theta_dot ^ 2) * s) / (P_M + P_m);
          denom = P_l * (4 / 3 - (P_m * (c ^ 2)) / (P_M + P_m));
          theta_dd = (P_g * s - c * temp) / (denom + 1 / 10 ^ 9);
          x_dd = temp - (P_m * P_l * theta_dd * c) / (P_M + P_m);
          theta_dd' = theta_dd + theta_dd_extra
      in (x_dot, x_dd, theta_dot, theta_dd'))"

fun dynamics_constrained :: "vec4 \<Rightarrow> real \<Rightarrow> vec4" where
  "dynamics_constrained (x, x_dot, theta, theta_dot) pole_damp =
     (let s = sin theta;
          tau_damp = - pole_damp * theta_dot;
          theta_dd_extra = tau_damp / (P_m * (P_l ^ 2) + 1 / 10 ^ 9);
          denom_fixed = P_l * (4 / 3);
          theta_dd = (P_g * s) / (denom_fixed + 1 / 10 ^ 9) + theta_dd_extra
      in (0, 0, theta_dot, theta_dd))"

definition rk4_step :: "vec4 \<Rightarrow> real \<Rightarrow> real \<Rightarrow> bool \<Rightarrow> real \<Rightarrow> real \<Rightarrow> vec4" where
  "rk4_step state force dt constrained cart_damp pole_damp =
     (let f = (if constrained
               then (\<lambda>st. dynamics_constrained st pole_damp)
               else (\<lambda>st. dynamics_free st force cart_damp pole_damp));
          k1 = f state;
          k2 = f (vadd state (smul (0.5 * dt) k1));
          k3 = f (vadd state (smul (0.5 * dt) k2));
          k4 = f (vadd state (smul dt k3));
          nxt = vadd state (smul (dt / 6) (vadd (vadd (vadd k1 (smul 2 k2)) (smul 2 k3)) k4))
      in set2 nxt (wrap_angle (st2 nxt)))"

subsection \<open>controller.py\<close>

record Controller =
  k_p :: real
  k_i :: real
  k_d :: real
  x_err_i :: real
  prev_t :: real

definition Controller_init :: Controller where
  "Controller_init = \<lparr>k_p = 5, k_i = 2, k_d = 3, x_err_i = 0, prev_t = 0\<rparr>"

definition Controller_reset :: "Controller \<Rightarrow> Controller" where
  "Controller_reset self = self\<lparr>x_err_i := 0, prev_t := 0\<rparr>"

text \<open>\<open>Controller.__call__\<close>: the returned pair is the force and the controller after the call.\<close>

fun Controller_call :: "Controller \<Rightarrow> vec4 \<Rightarrow> real \<Rightarrow> real \<Rightarrow> real \<Rightarrow> real \<times> Controller" where
  "Controller_call self (x, x_dot, theta, theta_dot) t ref_x ref_theta =
     (let dt = t - prev_t self;
          self1 = self\<lparr>prev_t := t\<rparr>;
          x_err = ref_x - x;
          self2 = self1\<lparr>x_err_i := x_err_i self1 + x_err * dt\<rparr>;
          u_p = k_p self2 * x_err;
          u_i = k_i self2 * x_err_i self2;
          u_d = k_d self2 * x_dot * (- 1);
          u = u_p + u_i + u_d
      in (u, self2))"

subsection \<open>metrics.py\<close>

record Metrics =
  max_abs_theta :: real
  max_abs_x_dev :: real
  energy_abs_impulse :: real
  settle_time :: "real option"
  in_band_since :: "real option"

definition Metrics_init :: Metrics where
  "Metrics_init = \<lparr>max_abs_theta = 0, max_abs_x_dev = 0, energy_abs_impulse = 0,
                    settle_time = None, in_band_since = None\<rparr>"

definition Metrics_reset :: "Metrics \<Rightarrow> Metrics" where
  "Metrics_reset self = self\<lparr>max_abs_theta := 0, max_abs_x_dev := 0, energy_abs_impulse := 0,
                             settle_time := None, in_band_since := None\<rparr>"

text \<open>The local \<open>in_band\<close> of \<open>Metrics.update\<close>, as a predicate of the arguments it is computed from.\<close>

fun in_band :: "vec4 \<Rightarrow> real \<Rightarrow> real \<Rightarrow> bool" where
  "in_band (x, x_dot, theta, theta_dot) ref_x ref_theta =
     (let theta_err = wrap_angle (theta - ref_theta);
          x_err = x - ref_x
      in \<bar>x_err\<bar> \<le> P_settle_x_thresh \<and> \<bar>theta_err\<bar> \<le> P_settle_theta_thresh)"

fun Metrics_update :: "Metrics \<Rightarrow> vec4 \<Rightarrow> real \<Rightarrow> real \<Rightarrow> real \<Rightarrow> real \<Rightarrow> real \<Rightarrow> Metrics" where
  "Metrics_update self (x, x_dot, theta, theta_dot) t force ref_x ref_theta dt =
     (let theta_err = wrap_angle (theta - ref_theta);
          x_err = x - ref_x;
          self1 = self\<lparr>max_abs_theta := max (max_abs_theta self) \<bar>theta_err\<bar>\<rparr>;
          self2 = self1\<lparr>max_abs_x_dev := max (max_abs_x_dev self1) \<bar>x_err\<bar>\<rparr>;
          self3 = self2\<lparr>energy_abs_impulse := energy_abs_impulse self2 + \<bar>force\<bar> * dt\<rparr>;
          inb = (\<bar>x_err\<bar> \<le> P_settle_x_thresh \<and> \<bar>theta_err\<bar> \<le> P_settle_theta_thresh)
      in case settle_time self3 of
           None \<Rightarrow>
             (if inb then
                (case in_band_since self3 of
                   None \<Rightarrow> self3\<lparr>in_band_since := Some t\<rparr>
                 | Some since \<Rightarrow>
                     if t - since \<ge> P_settle_hold_time
                     then self3\<lparr>settle_time := Some since\<rparr>
                     else self3)
              else self3\<lparr>in_band_since := None\<rparr>)
         | Some _ \<Rightarrow> self3)"

text \<open>One argument tuple of \<open>Metrics.update\<close>: \<open>(state, t, force, ref_x, ref_theta, dt)\<close>.\<close>

type_synonym update_args = "vec4 \<times> real \<times> real \<times> real \<times> real \<times> real"

fun Metrics_update_args :: "Metrics \<Rightarrow> update_args \<Rightarrow> Metrics" where
  "Metrics_update_args self (state, t, force, ref_x, ref_theta, dt) =
     Metrics_update self state t force ref_x ref_theta dt"

text \<open>A sequence of \<open>update\<close> calls on one tracker, in order.\<close>

definition Metrics_updates :: "Metrics \<Rightarrow> update_args list \<Rightarrow> Metrics" where
  "Metrics_updates self us = foldl Metrics_update_args self us"

fun args_t :: "update_args \<Rightarrow> real" where
  "args_t (state, t, force, ref_x, ref_theta, dt) = t"

fun args_in_band :: "update_args \<Rightarrow> bool" where
  "args_in_band (state, t, force, ref_x, ref_theta, dt) = in_band state ref_x ref_theta"

fun args_impulse :: "update_args \<Rightarrow> real" where
  "args_impulse (state, t, force, ref_x, ref_theta, dt) = \<bar>force\<bar> * dt"

fun args_dt :: "update_args \<Rightarrow> real" where
  "args_dt (state, t, force, ref_x, ref_theta, dt) = dt"

subsection \<open>main.py: track bounds, contact flag and the sub-step loop\<close>

text \<open>\<open>int(v)\<close> on a float truncates towards zero.\<close>

definition py_int :: "real \<Rightarrow> int" where
  "py_int v = (if 0 \<le> v then floor v else ceiling v)"

definition W :: int where "W = 1600"
definition ppm :: real where "ppm = P_pixels_per_meter"
definition cart_w :: int where "cart_w = py_int (P_cart_width_m * ppm)"
definition x_min_px :: int where "x_min_px = cart_w div 2 + 12"
definition x_max_px :: int where "x_max_px = W - cart_w div 2 - 12"
definition x_min_m :: real where "x_min_m = (of_int x_min_px - of_int W / 2) / ppm"
definition x_max_m :: real where "x_max_m = (of_int x_max_px - of_int W / 2) / ppm"

definition constraint_flag :: "vec4 \<Rightarrow> real \<Rightarrow> bool" where
  "constraint_flag st force_total =
     (let eps = 1 / 10 ^ 6;
          x = st0 st;
          at_left = (x \<le> x_min_m + eps);
          at_right = (x \<ge> x_max_m - eps);
          pushing_left = (force_total < 0);
          pushing_right = (force_total > 0)
      in (at_left \<and> pushing_left) \<or> (at_right \<and> pushing_right))"

text \<open>The block under \<open>if constrained:\<close>.\<close>

definition pre_clamp :: "vec4 \<Rightarrow> vec4" where
  "pre_clamp state =
     (let state1 = (if st0 state \<le> x_min_m then set0 state x_min_m else state);
          state2 = (if st0 state1 \<ge> x_max_m then set0 state1 x_max_m else state1)
      in set1 state2 0)"

text \<open>The block under \<open># Safety clamp\<close>.\<close>

definition safety_clamp :: "vec4 \<Rightarrow> vec4" where
  "safety_clamp state =
     (if st0 state < x_min_m then
        (let state1 = set0 state x_min_m
         in if st1 state1 < 0 then set1 state1 0 else state1)
      else if st0 state > x_max_m then
        (let state1 = set0 state x_max_m
         in if st1 state1 > 0 then set1 state1 0 else state1)
      else state)"

text \<open>
  One pass through the body of \<open>for _ in range(P.substeps)\<close>. The loop reads \<open>f_total\<close>,
  the references and the two damping values, and updates \<open>state\<close>, \<open>t\<close> and \<open>metrics\<close>.
\<close>

fun sub_step :: "real \<Rightarrow> real \<Rightarrow> real \<Rightarrow> real \<Rightarrow> real \<Rightarrow> vec4 \<times> real \<times> Metrics \<Rightarrow> vec4 \<times> real \<times> Metrics" where
  "sub_step f_total ref_x ref_theta cart_damp pole_damp (state, t, metrics) =
     (let constrained = constraint_flag state f_total;
          state1 = (if constrained then pre_clamp state else state);
          state2 = rk4_step state1 f_total P_dt constrained cart_damp pole_damp;
          state3 = safety_clamp state2;
          t' = t + P_dt;
          metrics' = Metrics_update metrics state3 t' f_total ref_x ref_theta P_dt
      in (state3, t', metrics'))"

fun sub_steps :: "nat \<Rightarrow> real \<Rightarrow> real \<Rightarrow> real \<Rightarrow> real \<Rightarrow> real \<Rightarrow> vec4 \<times> real \<times> Metrics \<Rightarrow> vec4 \<times> real \<times> Metrics" where
  "sub_steps 0 f_total ref_x ref_theta cart_damp pole_damp s = s"
| "sub_steps (Suc n) f_total ref_x ref_theta cart_damp pole_damp s =
     sub_steps n f_total ref_x ref_theta cart_damp pole_damp
       (sub_step f_total ref_x ref_theta cart_damp pole_damp s)"

subsection \<open>The formulas of the specification, for comparison with the code\<close>

text \<open>
  The free-regime derivative as the specification words it: the angular acceleration
  \<open>theta_dd\<close> already contains the damping term when it enters \<open>x_dd\<close>.
\<close>

fun dynamics_free_spec :: "vec4 \<Rightarrow> real \<Rightarrow> real \<Rightarrow> real \<Rightarrow> vec4" where
  "dynamics_free_spec (x, x_dot, theta, theta_dot) force cart_damp pole_damp =
     (let eps = 1 / 10 ^ 9;
          force_eff = force - cart_damp * x_dot;
          temp = (force_eff + P_m * P_l * theta_dot ^ 2 * sin theta) / (P_M + P_m);
          denom = P_l * (4 / 3 - P_m * (cos theta) ^ 2 / (P_M + P_m));
          damping_term = (- pole_damp * theta_dot) / (P_m * P_l ^ 2 + eps);
          theta_dd = (P_g * sin theta - cos theta * temp) / (denom + eps) + damping_term;
          x_dd = temp - P_m * P_l * theta_dd * cos theta / (P_M + P_m)
      in (x_dot, x_dd, theta_dot, theta_dd))"

text \<open>
  The classic four-stage Runge-Kutta update of the specification for a derivative function
  \<open>f\<close>, written out component by component, before the angle is wrapped.
\<close>

definition rk4_spec :: "(vec4 \<Rightarrow> vec4) \<Rightarrow> vec4 \<Rightarrow> real \<Rightarrow> vec4" where
  "rk4_spec f state dt =
     (let k1 = f state;
          k2 = f (st0 state + dt / 2 * st0 k1, st1 state + dt / 2 * st1 k1,
                  st2 state + dt / 2 * st2 k1, st3 state + dt / 2 * st3 k1);
          k3 = f (st0 state + dt / 2 * st0 k2, st1 state + dt / 2 * st1 k2,
                  st2 state + dt / 2 * st2 k2, st3 state + dt / 2 * st3 k2);
          k4 = f (st0 state + dt * st0 k3, st1 state + dt * st1 k3,
                  st2 state + dt * st2 k3, st3 state + dt * st3 k3)
      in (st0 state + dt / 6 * (st0 k1 + 2 * st0 k2 + 2 * st0 k3 + st0 k4),
          st1 state + dt / 6 * (st1 k1 + 2 * st1 k2 + 2 * st1 k3 + st1 k4),
          st2 state + dt / 6 * (st2 k1 + 2 * st2 k2 + 2 * st2 k3 + st2 k4),
          st3 state + dt / 6 * (st3 k1 + 2 * st3 k2 + 2 * st3 k3 + st3 k4)))"

section \<open>Properties\<close>

subsection \<open>Array components\<close>

lemma st_vadd:
  "st0 (vadd u v) = st0 u + st0 v" "st1 (vadd u v) = st1 u + st1 v"
  "st2 (vadd u v) = st2 u + st2 v" "st3 (vadd u v) = st3 u + st3 v"
  by (cases u; cases v; simp)+

lemma st_smul:
  "st0 (smul k v) = k * st0 v" "st1 (smul k v) = k * st1 v"
  "st2 (smul k v) = k * st2 v" "st3 (smul k v) = k * st3 v"
  by (cases v; simp)+

lemma st_set0:
  "st0 (set0 v a) = a" "st1 (set0 v a) = st1 v" "st2 (set0 v a) = st2 v" "st3 (set0 v a) = st3 v"
  by (cases v; simp)+

lemma st_set1:
  "st0 (set1 v a) = st0 v" "st1 (set1 v a) = a" "st2 (set1 v a) = st2 v" "st3 (set1 v a) = st3 v"
  by (cases v; simp)+

lemma st_set2:
  "st0 (set2 v a) = st0 v" "st1 (set2 v a) = st1 v" "st2 (set2 v a) = a" "st3 (set2 v a) = st3 v"
  by (cases v; simp)+

subsection \<open>Rounding to double\<close>

lemma binade_eqI:
  assumes "2 powr of_int e \<le> \<bar>x\<bar>" and "\<bar>x\<bar> < 2 powr of_int (e + 1)"
  shows "binade x = e"
proof -
  have pos: "0 < \<bar>x\<bar>" using assms(1) by (smt (verit) powr_gt_zero)
  have "of_int e \<le> log 2 \<bar>x\<bar>" using assms(1) pos by (simp add: le_log_iff)
  moreover have "log 2 \<bar>x\<bar> < of_int (e + 1)" using assms(2) pos by (simp add: log_less_iff)
  ultimately show ?thesis unfolding binade_def by (simp add: floor_eq_iff)
qed

lemma binade_le:
  assumes "x \<noteq> 0" and "\<bar>x\<bar> < 2 powr of_int (e + 1)"
  shows "binade x \<le> e"
proof -
  have "log 2 \<bar>x\<bar> < of_int (e + 1)" using assms by (simp add: log_less_iff)
  then have "floor (log 2 \<bar>x\<bar>) \<le> e" by linarith
  then show ?thesis by (simp add: binade_def)
qed

lemma ulp_pos: "0 < ulp x"
  by (simp add: ulp_def)

lemma ulp_grid:
  assumes "x \<noteq> 0" and "\<bar>x\<bar> < 2 powr of_int (e + 1)" and "- 1022 \<le> e"
  shows "\<exists>k::nat. ulp x * 2 ^ k = 2 powr of_int (e - 52)"
proof -
  let ?b = "max (binade x) (- 1022)"
  have le: "?b \<le> e" using binade_le[OF assms(1,2)] assms(3) by simp
  define k where "k = nat (e - ?b)"
  have "(2::real) powr of_int (e - 52) = 2 powr (of_int (?b - 52) + of_int (e - ?b))"
    by simp
  also have "\<dots> = 2 powr of_int (?b - 52) * 2 powr of_int (e - ?b)"
    by (simp only: powr_add)
  also have "2 powr of_int (e - ?b) = (2::real) ^ k"
  proof -
    have "of_int (e - ?b) = real k" using le by (simp add: k_def)
    then show ?thesis by (simp only: powr_realpow[of 2 k, simplified])
  qed
  finally show ?thesis by (auto simp add: ulp_def)
qed



lemma round_even_le: "y \<le> of_int n \<Longrightarrow> round_even y \<le> n"
  unfolding round_even_def Let_def by (auto; linarith)

lemma round_even_ge: "of_int n \<le> y \<Longrightarrow> n \<le> round_even y"
  unfolding round_even_def Let_def by (auto; linarith)

lemma round_even_int: "round_even (of_int n) = n"
  unfolding round_even_def Let_def by simp


lemma round_double_le:
  assumes "x \<noteq> 0" and "c = of_int n * ulp x" and "x \<le> c"
  shows "round_double x \<le> c"
proof -
  have u: "0 < ulp x" by (rule ulp_pos)
  have "x / ulp x \<le> of_int n" using assms(2,3) u by (simp add: pos_divide_le_eq)
  then have "round_even (x / ulp x) \<le> n" by (rule round_even_le)
  then have "of_int (round_even (x / ulp x)) * ulp x \<le> of_int n * ulp x"
    using u by (intro mult_right_mono) simp_all
  then show ?thesis using assms(1,2) by (simp add: round_double_def mult.commute)
qed

lemma round_double_ge:
  assumes "x \<noteq> 0" and "c = of_int n * ulp x" and "c \<le> x"
  shows "c \<le> round_double x"
proof -
  have u: "0 < ulp x" by (rule ulp_pos)
  have "of_int n \<le> x / ulp x" using assms(2,3) u by (simp add: pos_le_divide_eq)
  then have "n \<le> round_even (x / ulp x)" by (rule round_even_ge)
  then have "of_int n * ulp x \<le> of_int (round_even (x / ulp x)) * ulp x"
    using u by (intro mult_right_mono) simp_all
  then show ?thesis using assms(1,2) by (simp add: round_double_def mult.commute)
qed

lemma round_double_fix:
  assumes "x = of_int n * ulp x"
  shows "round_double x = x"
proof (cases "x = 0")
  case True
  then show ?thesis by (simp add: round_double_def)
next
  case False
  have u: "0 < ulp x" by (rule ulp_pos)
  have "x / ulp x = of_int n" using assms u by (simp add: field_simps)
  then have "round_even (x / ulp x) = n" by (simp only: round_even_int)
  then show ?thesis using False assms by (simp add: round_double_def mult.commute)
qed

text \<open>A multiple of \<open>2 powr (e - 52)\<close> is a multiple of the spacing at every \<open>x\<close> below \<open>2 powr (e + 1)\<close>.\<close>
lemma grid_multiple:
  assumes "x \<noteq> 0" and "\<bar>x\<bar> < 2 powr of_int (e + 1)" and "- 1022 \<le> e"
  shows "\<exists>n::int. of_int m * 2 powr of_int (e - 52) = of_int n * ulp x"
proof -
  from ulp_grid[OF assms] obtain k :: nat where k: "ulp x * 2 ^ k = 2 powr of_int (e - 52)" ..
  have "of_int m * 2 powr of_int (e - 52) = of_int (m * 2 ^ k) * ulp x"
    using k[symmetric] by simp
  then show ?thesis ..
qed

lemma round_double_upper:
  assumes "x \<noteq> 0" and "\<bar>x\<bar> < 2 powr of_int (e + 1)" and "- 1022 \<le> e"
    and "c = of_int m * 2 powr of_int (e - 52)" and "x \<le> c"
  shows "round_double x \<le> c"
proof -
  from grid_multiple[OF assms(1-3), of m] obtain n :: int where "c = of_int n * ulp x"
    using assms(4) by auto
  then show ?thesis by (rule round_double_le[OF assms(1) _ assms(5)])
qed

lemma round_double_lower:
  assumes "x \<noteq> 0" and "\<bar>x\<bar> < 2 powr of_int (e + 1)" and "- 1022 \<le> e"
    and "c = of_int m * 2 powr of_int (e - 52)" and "c \<le> x"
  shows "c \<le> round_double x"
proof -
  from grid_multiple[OF assms(1-3), of m] obtain n :: int where "c = of_int n * ulp x"
    using assms(4) by auto
  then show ?thesis by (rule round_double_ge[OF assms(1) _ assms(5)])
qed

lemma fmod_bounds:
  assumes "0 < b"
  shows "- b < fmod a b \<and> fmod a b < b"
proof (cases "0 \<le> a / b")
  case True
  have "of_int (floor (a / b)) \<le> a / b" and "a / b < of_int (floor (a / b)) + 1" by linarith+
  then have "of_int (floor (a / b)) * b \<le> a" and "a < (of_int (floor (a / b)) + 1) * b"
    using assms by (simp_all only: pos_le_divide_eq pos_divide_less_eq)
  then show ?thesis using True assms by (simp add: fmod_def c_trunc_def algebra_simps)
next
  case False
  have "a / b \<le> of_int (ceiling (a / b))" and "of_int (ceiling (a / b)) - 1 < a / b" by linarith+
  then have "a \<le> of_int (ceiling (a / b)) * b" and "(of_int (ceiling (a / b)) - 1) * b < a"
    using assms by (simp_all only: pos_divide_le_eq pos_less_divide_eq)
  then show ?thesis using False assms by (simp add: fmod_def c_trunc_def algebra_simps)
qed

lemma math_pi_bounds: "3 < math_pi" "math_pi < 4"
  by (simp_all add: math_pi_def)

lemma two_powr_neg: "(2::real) powr (- numeral k) = 1 / 2 ^ numeral k"
  by (simp add: powr_minus inverse_eq_divide)

subsection \<open>Angle wrapping\<close>

lemma ulp_eqI:
  assumes "2 powr of_int e \<le> \<bar>x\<bar>" and "\<bar>x\<bar> < 2 powr of_int (e + 1)" and "- 1022 \<le> e"
  shows "ulp x = 2 powr of_int (e - 52)"
  using binade_eqI[OF assms(1,2)] assms(3) by (simp add: ulp_def)

lemma two_math_pi_grid: "2 * math_pi = of_int 7074237752028440 * 2 powr of_int (2 - 52)"
  by (simp add: math_pi_def two_powr_neg)

lemma math_pi_grid: "math_pi = of_int 7074237752028440 * 2 powr of_int (1 - 52)"
  by (simp add: math_pi_def two_powr_neg)

lemma neg_math_pi_grid: "- math_pi = of_int (- 7074237752028440) * 2 powr of_int (1 - 52)"
  by (simp add: math_pi_def two_powr_neg)

lemma zero_grid: "(0::real) = of_int 0 * 2 powr of_int (e - 52)"
  by simp

lemma float_mod_two_pi_cases:
  "float_mod a (2 * math_pi) = 0
   \<or> float_mod a (2 * math_pi) = fmod a (2 * math_pi) \<and> 0 < fmod a (2 * math_pi)
   \<or> float_mod a (2 * math_pi) = round_double (fmod a (2 * math_pi) + 2 * math_pi)
       \<and> fmod a (2 * math_pi) < 0"
  using math_pi_bounds by (auto simp add: float_mod_def Let_def)

lemma float_mod_two_pi_range:
  "0 \<le> float_mod a (2 * math_pi) \<and> float_mod a (2 * math_pi) \<le> 2 * math_pi"
proof -
  let ?b = "2 * math_pi"
  let ?md = "fmod a ?b"
  have b: "0 < ?b" "?b < 8" using math_pi_bounds by simp_all
  have md: "- ?b < ?md" "?md < ?b" using fmod_bounds[OF b(1), of a] by simp_all
  from float_mod_two_pi_cases[of a] show ?thesis
  proof (elim disjE conjE)
    assume "float_mod a ?b = 0"
    then show ?thesis using b by simp
  next
    assume "float_mod a ?b = ?md" and "0 < ?md"
    then show ?thesis using md by simp
  next
    assume eq: "float_mod a ?b = round_double (?md + ?b)" and neg: "?md < 0"
    let ?x = "?md + ?b"
    have x: "?x \<noteq> 0" "\<bar>?x\<bar> < 2 powr of_int (2 + 1)" "0 \<le> ?x" "?x \<le> ?b"
      using md neg b by simp_all
    have "round_double ?x \<le> ?b"
      using x(1,2) _ two_math_pi_grid x(4) by (rule round_double_upper) simp
    moreover have "0 \<le> round_double ?x"
      using x(1,2) _ zero_grid x(3) by (rule round_double_lower) simp
    ultimately show ?thesis using eq by simp
  qed
qed

lemma round_double_within_pi:
  assumes "- math_pi \<le> y" and "y \<le> math_pi"
  shows "- math_pi \<le> round_double y \<and> round_double y \<le> math_pi"
proof (cases "y = 0")
  case True
  then show ?thesis using math_pi_bounds by (simp add: round_double_def)
next
  case False
  have y: "\<bar>y\<bar> < 2 powr of_int (1 + 1)" using assms math_pi_bounds by simp
  have "round_double y \<le> math_pi"
    using False y _ math_pi_grid assms(2) by (rule round_double_upper) simp
  moreover have "- math_pi \<le> round_double y"
    using False y _ neg_math_pi_grid assms(1) by (rule round_double_lower) simp
  ultimately show ?thesis by simp
qed

lemma wrap_angle_range: "- math_pi \<le> wrap_angle theta \<and> wrap_angle theta \<le> math_pi"
  unfolding wrap_angle_def
  using float_mod_two_pi_range[of "round_double (theta + math_pi)"]
  by (intro round_double_within_pi) simp_all

lemma round_double_gridI:
  assumes "2 powr of_int e \<le> \<bar>x\<bar>" and "\<bar>x\<bar> < 2 powr of_int (e + 1)" and "- 1022 \<le> e"
    and "x = of_int n * 2 powr of_int (e - 52)"
  shows "round_double x = x"
  using assms(4) ulp_eqI[OF assms(1-3)] by (intro round_double_fix[of x n]) simp

lemma round_double_math_pi: "round_double math_pi = math_pi"
  by (rule round_double_gridI[of 1 _ 7074237752028440]) (simp_all add: math_pi_def two_powr_neg)

lemma round_double_neg_math_pi: "round_double (- math_pi) = - math_pi"
  by (rule round_double_gridI[of 1 _ "- 7074237752028440"]) (simp_all add: math_pi_def two_powr_neg)

lemma round_double_two_math_pi: "round_double (2 * math_pi) = 2 * math_pi"
  by (rule round_double_gridI[of 2 _ 7074237752028440]) (simp_all add: math_pi_def two_powr_neg)


lemma c_trunc_small: "- 1 < v \<Longrightarrow> v < 1 \<Longrightarrow> c_trunc v = 0"
  unfolding c_trunc_def by (auto simp add: floor_eq_iff ceiling_eq_iff)

lemma fmod_small:
  assumes "0 < b" and "\<bar>a\<bar> < b"
  shows "fmod a b = a"
proof -
  have "- 1 < a / b" and "a / b < 1" using assms by (simp_all add: field_simps abs_less_iff)
  then have "c_trunc (a / b) = 0" by (rule c_trunc_small)
  then show ?thesis by (simp add: fmod_def)
qed

lemma round_double_0: "round_double 0 = 0"
  by (simp add: round_double_def)


lemma wrap_angle_math_pi: "wrap_angle math_pi = - math_pi"
proof -
  have "float_mod (2 * math_pi) (2 * math_pi) = 0"
    by (simp add: float_mod_def fmod_def c_trunc_def Let_def math_pi_def)
  then show ?thesis
    using round_double_two_math_pi by (simp add: wrap_angle_def round_double_neg_math_pi)
qed


lemma wrap_angle_0: "wrap_angle 0 = 0"
proof -
  have "fmod math_pi (2 * math_pi) = math_pi"
    by (rule fmod_small) (simp_all add: math_pi_def)
  then have "float_mod math_pi (2 * math_pi) = math_pi"
    unfolding float_mod_def Let_def using math_pi_bounds by simp
  moreover have "round_double (0 + math_pi) = math_pi"
    using round_double_math_pi by simp
  ultimately show ?thesis
    unfolding wrap_angle_def by (simp add: round_double_0)
qed

text \<open>The argument \<open>-math.pi - 2 ^ (-51)\<close> is itself a double, the one just below \<open>-math.pi\<close>.\<close>

lemma nextafter_is_double:
  "round_double (- math_pi - 1 / 2 ^ 51) = - math_pi - 1 / 2 ^ 51"
  by (rule round_double_gridI[of 1 _ "- 7074237752028441"]) (simp_all add: math_pi_def two_powr_neg)






subsection \<open>Free-regime derivative\<close>

lemma dynamics_free_vs_spec:
  "st0 (dynamics_free st force cart_damp pole_damp)
     = st0 (dynamics_free_spec st force cart_damp pole_damp)"
  "st2 (dynamics_free st force cart_damp pole_damp)
     = st2 (dynamics_free_spec st force cart_damp pole_damp)"
  "st3 (dynamics_free st force cart_damp pole_damp)
     = st3 (dynamics_free_spec st force cart_damp pole_damp)"
  "st1 (dynamics_free st force cart_damp pole_damp)
     = st1 (dynamics_free_spec st force cart_damp pole_damp)
       + P_m * P_l * ((- pole_damp * st3 st) / (P_m * P_l ^ 2 + 1 / 10 ^ 9)) * cos (st2 st)
         / (P_M + P_m)"
  by (cases st; simp add: Let_def algebra_simps add_divide_distrib diff_divide_distrib)+

text \<open>
  Claim C1, as stated: \<open>dynamics_free\<close> returns the derivative of the specification's
  formulas, where \<open>x_dd\<close> is computed from the \<open>theta_dd\<close> that already includes the damping
  term. With the pole at the upright position turning at 1 rad/s, no force, no cart damping
  and pole damping 1, the code returns \<open>x_dd = 0\<close> and the stated formulas do not.
\<close>

theorem C1_dynamics_free_counterexample:
  "dynamics_free (0, 0, 0, 1) 0 0 1 \<noteq> dynamics_free_spec (0, 0, 0, 1) 0 0 1
   \<and> st1 (dynamics_free (0, 0, 0, 1) 0 0 1) = 0
   \<and> st1 (dynamics_free_spec (0, 0, 0, 1) 0 0 1) = (1 / 12) * (1 / (5 / 100 + 1 / 10 ^ 9))"
  by (simp add: Let_def P_m_def P_l_def P_M_def P_g_def power2_eq_square)

text \<open>
  Claim C1, amended: \<open>dynamics_free\<close> returns \<open>(x_dot, x_dd, theta_dot, theta_dd)\<close> with
  \<open>force_eff\<close>, \<open>temp\<close>, \<open>denom\<close> and \<open>damping_term\<close> as stated and
  \<open>theta_dd = (g sin theta - cos theta * temp) / (denom + eps) + damping_term\<close>, but
  \<open>x_dd = temp - m l theta_dd_undamped cos theta / (M + m)\<close> uses the angular acceleration
  \<open>theta_dd_undamped = (g sin theta - cos theta * temp) / (denom + eps)\<close> from before the
  damping term is added. The other three components are those of the stated formulas, and
  the code's \<open>x_dd\<close> is the stated \<open>x_dd\<close> plus \<open>m l damping_term cos theta / (M + m)\<close>.
\<close>

theorem C1_dynamics_free_amended:
  "dynamics_free (x, x_dot, theta, theta_dot) force cart_damp pole_damp =
     (let eps = 1 / 10 ^ 9;
          force_eff = force - cart_damp * x_dot;
          temp = (force_eff + P_m * P_l * theta_dot ^ 2 * sin theta) / (P_M + P_m);
          denom = P_l * (4 / 3 - P_m * (cos theta) ^ 2 / (P_M + P_m));
          damping_term = (- pole_damp * theta_dot) / (P_m * P_l ^ 2 + eps);
          theta_dd_undamped = (P_g * sin theta - cos theta * temp) / (denom + eps);
          theta_dd = theta_dd_undamped + damping_term;
          x_dd = temp - P_m * P_l * theta_dd_undamped * cos theta / (P_M + P_m)
      in (x_dot, x_dd, theta_dot, theta_dd))
   \<and> st0 (dynamics_free (x, x_dot, theta, theta_dot) force cart_damp pole_damp)
       = st0 (dynamics_free_spec (x, x_dot, theta, theta_dot) force cart_damp pole_damp)
   \<and> st2 (dynamics_free (x, x_dot, theta, theta_dot) force cart_damp pole_damp)
       = st2 (dynamics_free_spec (x, x_dot, theta, theta_dot) force cart_damp pole_damp)
   \<and> st3 (dynamics_free (x, x_dot, theta, theta_dot) force cart_damp pole_damp)
       = st3 (dynamics_free_spec (x, x_dot, theta, theta_dot) force cart_damp pole_damp)
   \<and> st1 (dynamics_free (x, x_dot, theta, theta_dot) force cart_damp pole_damp)
       = st1 (dynamics_free_spec (x, x_dot, theta, theta_dot) force cart_damp pole_damp)
         + P_m * P_l * ((- pole_damp * theta_dot) / (P_m * P_l ^ 2 + 1 / 10 ^ 9)) * cos theta
           / (P_M + P_m)"
proof -
  let ?st = "(x, x_dot, theta, theta_dot)"
  have formula: "dynamics_free ?st force cart_damp pole_damp =
     (let eps = 1 / 10 ^ 9;
          force_eff = force - cart_damp * x_dot;
          temp = (force_eff + P_m * P_l * theta_dot ^ 2 * sin theta) / (P_M + P_m);
          denom = P_l * (4 / 3 - P_m * (cos theta) ^ 2 / (P_M + P_m));
          damping_term = (- pole_damp * theta_dot) / (P_m * P_l ^ 2 + eps);
          theta_dd_undamped = (P_g * sin theta - cos theta * temp) / (denom + eps);
          theta_dd = theta_dd_undamped + damping_term;
          x_dd = temp - P_m * P_l * theta_dd_undamped * cos theta / (P_M + P_m)
      in (x_dot, x_dd, theta_dot, theta_dd))"
    by (simp add: Let_def)
  have x_dd: "st1 (dynamics_free ?st force cart_damp pole_damp)
       = st1 (dynamics_free_spec ?st force cart_damp pole_damp)
         + P_m * P_l * ((- pole_damp * theta_dot) / (P_m * P_l ^ 2 + 1 / 10 ^ 9)) * cos theta
           / (P_M + P_m)"
    using dynamics_free_vs_spec(4)[of ?st force cart_damp pole_damp]
    by (simp only: st2.simps st3.simps)
  from formula dynamics_free_vs_spec(1-3)[of ?st force cart_damp pole_damp] x_dd
  show ?thesis by (intro conjI)
qed

subsection \<open>Integrator\<close>

lemma dynamics_constrained_01:
  "st0 (dynamics_constrained st pole_damp) = 0 \<and> st1 (dynamics_constrained st pole_damp) = 0"
  by (cases st) (simp add: Let_def)

lemma rk4_constrained_x:
  "st0 (rk4_step state force dt True cart_damp pole_damp) = st0 state"
  "st1 (rk4_step state force dt True cart_damp pole_damp) = st1 state"
  by (simp_all add: rk4_step_def Let_def st_set2 st_vadd st_smul dynamics_constrained_01)

lemma vadd_smul_half:
  "vadd state (smul (0.5 * dt) k) =
     (st0 state + dt / 2 * st0 k, st1 state + dt / 2 * st1 k,
      st2 state + dt / 2 * st2 k, st3 state + dt / 2 * st3 k)"
  by (cases state; cases k; simp)

lemma vadd_smul:
  "vadd state (smul dt k) =
     (st0 state + dt * st0 k, st1 state + dt * st1 k,
      st2 state + dt * st2 k, st3 state + dt * st3 k)"
  by (cases state; cases k; simp)

lemma rk4_combine:
  "vadd state (smul c (vadd (vadd (vadd k1 (smul 2 k2)) (smul 2 k3)) k4)) =
     (st0 state + c * (st0 k1 + 2 * st0 k2 + 2 * st0 k3 + st0 k4),
      st1 state + c * (st1 k1 + 2 * st1 k2 + 2 * st1 k3 + st1 k4),
      st2 state + c * (st2 k1 + 2 * st2 k2 + 2 * st2 k3 + st2 k4),
      st3 state + c * (st3 k1 + 2 * st3 k2 + 2 * st3 k3 + st3 k4))"
  by (cases state; cases k1; cases k2; cases k3; cases k4; simp)

lemma rk4_step_constrained_eq:
  "rk4_step state force dt True cart_damp pole_damp =
     set2 (rk4_spec (\<lambda>st. dynamics_constrained st pole_damp) state dt)
          (wrap_angle (st2 (rk4_spec (\<lambda>st. dynamics_constrained st pole_damp) state dt)))"
  unfolding rk4_step_def rk4_spec_def Let_def vadd_smul_half rk4_combine
  by (simp only: vadd_smul if_True)

lemma rk4_step_free_eq:
  "rk4_step state force dt False cart_damp pole_damp =
     set2 (rk4_spec (\<lambda>st. dynamics_free st force cart_damp pole_damp) state dt)
          (wrap_angle (st2 (rk4_spec (\<lambda>st. dynamics_free st force cart_damp pole_damp) state dt)))"
  unfolding rk4_step_def rk4_spec_def Let_def vadd_smul_half rk4_combine
  by (simp only: vadd_smul if_False)

lemma rk4_step_theta_range:
  "- math_pi \<le> st2 (rk4_step state force dt constrained cart_damp pole_damp)
   \<and> st2 (rk4_step state force dt constrained cart_damp pole_damp) \<le> math_pi"
  unfolding rk4_step_def Let_def by (simp add: st_set2 wrap_angle_range)

text \<open>\<open>math.pi\<close> lies strictly between a quarter turn and three quarter turns.\<close>

lemma pi_ge_3: "3 \<le> pi"
proof -
  have "sin (pi / 6) \<le> pi / 6" by (rule sin_x_le_x) simp
  then show ?thesis by (simp add: sin_30)
qed

lemma cos_math_pi_neg: "cos math_pi < 0"
proof -
  have "- (pi / 2) < math_pi - pi" using pi_less_4 math_pi_bounds by simp
  moreover have "math_pi - pi < pi / 2" using pi_ge_3 math_pi_bounds by simp
  ultimately have "0 < cos (math_pi - pi)" by (rule cos_gt_zero_pi)
  then show ?thesis by simp
qed

text \<open>
  A pole hanging at \<open>theta = math.pi\<close> at rest, on a free cart without damping, pushed by the
  force \<open>g (M + m) tan theta\<close> that balances gravity on the pole: the angular acceleration
  is zero at every stage, whatever the cart does.
\<close>

lemma dynamics_free_balanced:
  "st2 (dynamics_free (x, x_dot, math_pi, 0)
          (P_g * (P_M + P_m) * (sin math_pi / cos math_pi)) 0 0) = 0
   \<and> st3 (dynamics_free (x, x_dot, math_pi, 0)
          (P_g * (P_M + P_m) * (sin math_pi / cos math_pi)) 0 0) = 0"
  using cos_math_pi_neg by (simp add: Let_def P_M_def P_m_def)

lemma rk4_spec_rest:
  assumes "\<And>x x_dot. st2 (f (x, x_dot, theta, 0)) = 0 \<and> st3 (f (x, x_dot, theta, 0)) = 0"
  shows "st2 (rk4_spec f (x, x_dot, theta, 0) dt) = theta"
  unfolding rk4_spec_def Let_def by (simp add: assms)

lemma rk4_balanced_at_pi:
  "st2 (rk4_step (0, 0, math_pi, 0) (P_g * (P_M + P_m) * (sin math_pi / cos math_pi))
          P_dt False 0 0) = - math_pi"
proof -
  let ?F = "P_g * (P_M + P_m) * (sin math_pi / cos math_pi)"
  have "st2 (rk4_spec (\<lambda>st. dynamics_free st ?F 0 0) (0, 0, math_pi, 0) P_dt) = math_pi"
    by (rule rk4_spec_rest) (rule dynamics_free_balanced)
  then show ?thesis
    by (simp only: rk4_step_free_eq st_set2 wrap_angle_math_pi)
qed

text \<open>
  Claim C3, as stated: \<open>rk4_step\<close> is the classic four-stage Runge-Kutta update and the
  returned angle lies in \<open>(-pi, pi]\<close>. A pole hanging at rest at \<open>theta = math.pi\<close> under the
  balancing force stays where it is, and the returned angle is \<open>-math.pi\<close>.
\<close>

theorem C3_rk4_step_counterexample:
  "\<not> (- math_pi
        < st2 (rk4_step (0, 0, math_pi, 0) (P_g * (P_M + P_m) * (sin math_pi / cos math_pi))
                 P_dt False 0 0)
      \<and> st2 (rk4_step (0, 0, math_pi, 0) (P_g * (P_M + P_m) * (sin math_pi / cos math_pi))
                 P_dt False 0 0)
        \<le> math_pi)"
  using rk4_balanced_at_pi by simp

text \<open>
  Claim C3, amended: for every state, force, step, damping values and either regime flag,
  \<open>rk4_step\<close> is the classic four-stage Runge-Kutta update (\<open>rk4_spec\<close>) of the regime's
  derivative function, the same combination for both regimes, with the angle component
  replaced by its wrapped value; and the returned angle lies in the closed interval
  \<open>[-pi, pi]\<close> (with \<open>pi = math.pi\<close>).
\<close>

theorem C3_rk4_step_amended:
  "rk4_step state force dt True cart_damp pole_damp =
     set2 (rk4_spec (\<lambda>st. dynamics_constrained st pole_damp) state dt)
          (wrap_angle (st2 (rk4_spec (\<lambda>st. dynamics_constrained st pole_damp) state dt)))
   \<and> rk4_step state force dt False cart_damp pole_damp =
     set2 (rk4_spec (\<lambda>st. dynamics_free st force cart_damp pole_damp) state dt)
          (wrap_angle (st2 (rk4_spec (\<lambda>st. dynamics_free st force cart_damp pole_damp) state dt)))
   \<and> - math_pi \<le> st2 (rk4_step state force dt constrained cart_damp pole_damp)
   \<and> st2 (rk4_step state force dt constrained cart_damp pole_damp) \<le> math_pi"
  using rk4_step_constrained_eq[of state force dt cart_damp pole_damp]
        rk4_step_free_eq[of state force dt cart_damp pole_damp]
        rk4_step_theta_range[of state force dt constrained cart_damp pole_damp]
  by (simp only: simp_thms)

text \<open>
  Claim C10: in the constrained regime \<open>rk4_step\<close> returns the cart position and the cart
  velocity of its input unchanged, for every state, step, force and damping values.
\<close>

theorem C10_rk4_constrained_frame:
  "st0 (rk4_step state force dt True cart_damp pole_damp) = st0 state
   \<and> st1 (rk4_step state force dt True cart_damp pole_damp) = st1 state"
  by (simp add: rk4_constrained_x)

subsection \<open>Controller\<close>

text \<open>
  Claim C5: a call computes \<open>dt = t - prev_t\<close>, stores \<open>t\<close> as the new \<open>prev_t\<close>, adds
  \<open>(ref_x - x) * dt\<close> to the integral and returns
  \<open>k_p * (ref_x - x) + k_i * integral - k_d * x_dot\<close> with the updated integral, unclamped.
\<close>

theorem C5_controller_law:
  "Controller_call self (x, x_dot, theta, theta_dot) t ref_x ref_theta =
     (k_p self * (ref_x - x)
        + k_i self * (x_err_i self + (ref_x - x) * (t - prev_t self))
        - k_d self * x_dot,
      self\<lparr>x_err_i := x_err_i self + (ref_x - x) * (t - prev_t self), prev_t := t\<rparr>)"
  by (simp add: Let_def)

text \<open>
  Claim C8: a call on a controller that was just reset returns the force, and leaves the
  internal state, of the first call on a freshly constructed controller with the same gains
  and the same arguments, whatever integral and \<open>prev_t\<close> the controller had before.
\<close>

theorem C8_controller_reset_fresh:
  "Controller_call (Controller_reset self) state t ref_x ref_theta =
   Controller_call (Controller_init\<lparr>k_p := k_p self, k_i := k_i self, k_d := k_d self\<rparr>)
     state t ref_x ref_theta"
  by (cases state) (simp add: Let_def Controller_reset_def Controller_init_def)

text \<open>
  Claim C9: two calls on the same controller state that agree on \<open>x\<close>, \<open>x_dot\<close>, \<open>t\<close> and
  \<open>ref_x\<close> return the same force and the same new controller state, whatever \<open>theta\<close>,
  \<open>theta_dot\<close> and \<open>ref_theta\<close> are.
\<close>

theorem C9_controller_ignores_angle:
  assumes "st0 s = st0 s'" and "st1 s = st1 s'"
  shows "Controller_call self s t ref_x ref_theta = Controller_call self s' t ref_x ref_theta'"
  using assms by (cases s; cases s') (simp add: Let_def)

theorem C9_controller_ignores_angle_witness:
  "st0 (1, 2, 3, 4) = st0 (1, 2, - 1, 7) \<and> st1 (1, 2, 3, 4) = st1 (1, 2, - 1, 7)
   \<and> Controller_call Controller_init (1, 2, 3, 4) 1 3 0
     = Controller_call Controller_init (1, 2, - 1, 7) 1 3 2
   \<and> Controller_call Controller_init (1, 2, 3, 4) 1 3 0
     = (8, Controller_init\<lparr>x_err_i := 2, prev_t := 1\<rparr>)"
  using C9_controller_ignores_angle[of "(1, 2, 3, 4)" "(1, 2, - 1, 7)" Controller_init 1 3 0 2]
  by (simp add: Let_def Controller_init_def)

subsection \<open>Contact at the upper track bound\<close>

lemma cart_w_val: "cart_w = 93"
  by (simp add: cart_w_def py_int_def ppm_def P_cart_width_m_def P_pixels_per_meter_def)

lemma x_min_m_val: "x_min_m = - (371 / 85)"
  by (simp add: x_min_m_def x_min_px_def cart_w_val W_def ppm_def P_pixels_per_meter_def)

lemma x_max_m_val: "x_max_m = 371 / 85"
  by (simp add: x_max_m_def x_max_px_def cart_w_val W_def ppm_def P_pixels_per_meter_def)

lemma constraint_flag_right:
  "x_max_m - 1 / 10 ^ 6 \<le> st0 state \<Longrightarrow> 0 < f_total \<Longrightarrow> constraint_flag state f_total"
  by (simp add: constraint_flag_def Let_def)

lemma pre_clamp_right:
  assumes "x_max_m - 1 / 10 ^ 6 \<le> st0 state"
  shows "st0 (pre_clamp state) = min (st0 state) x_max_m" and "st1 (pre_clamp state) = 0"
proof -
  from assms have "\<not> st0 state \<le> x_min_m"
    by (simp add: x_min_m_val x_max_m_val)
  then show "st0 (pre_clamp state) = min (st0 state) x_max_m" and "st1 (pre_clamp state) = 0"
    by (auto simp add: pre_clamp_def Let_def st_set0 st_set1 min_def)
qed

lemma safety_clamp_inside:
  "x_min_m \<le> st0 state \<Longrightarrow> st0 state \<le> x_max_m \<Longrightarrow> safety_clamp state = state"
  by (simp add: safety_clamp_def)

lemma sub_step_right:
  assumes "x_max_m - 1 / 10 ^ 6 \<le> st0 state" and "0 < f_total"
  shows "st0 (fst (sub_step f_total ref_x ref_theta cart_damp pole_damp (state, t, metrics)))
           = min (st0 state) x_max_m"
    and "st1 (fst (sub_step f_total ref_x ref_theta cart_damp pole_damp (state, t, metrics))) = 0"
proof -
  let ?s1 = "pre_clamp state"
  let ?s2 = "rk4_step ?s1 f_total P_dt True cart_damp pole_damp"
  let ?r = "fst (sub_step f_total ref_x ref_theta cart_damp pole_damp (state, t, metrics))"
  have c: "constraint_flag state f_total" using assms by (rule constraint_flag_right)
  have x2: "st0 ?s2 = min (st0 state) x_max_m" and v2: "st1 ?s2 = 0"
    using pre_clamp_right[OF assms(1)] by (simp_all add: rk4_constrained_x)
  have "x_min_m \<le> st0 ?s2" using assms(1) x2 by (simp add: x_min_m_val x_max_m_val)
  moreover have "st0 ?s2 \<le> x_max_m" using x2 by simp
  ultimately have s3: "safety_clamp ?s2 = ?s2" by (rule safety_clamp_inside)
  have "?r = ?s2"
    using c s3 by (simp add: Let_def)
  with x2 v2 show "st0 ?r = min (st0 state) x_max_m" and "st1 ?r = 0"
    by simp_all
qed

lemma sub_steps_right:
  assumes "x_max_m - 1 / 10 ^ 6 \<le> st0 (fst s)" and "0 < f_total"
  shows "st0 (fst (sub_steps (Suc n) f_total ref_x ref_theta cart_damp pole_damp s))
           = min (st0 (fst s)) x_max_m
       \<and> st1 (fst (sub_steps (Suc n) f_total ref_x ref_theta cart_damp pole_damp s)) = 0"
  using assms(1)
proof (induction n arbitrary: s)
  case 0
  obtain state t metrics where s: "s = (state, t, metrics)" by (cases s)
  with 0 assms(2) show ?case
    using sub_step_right[of state f_total ref_x ref_theta cart_damp pole_damp t metrics] by simp
next
  case (Suc n)
  obtain state t metrics where s: "s = (state, t, metrics)" by (cases s)
  let ?s' = "sub_step f_total ref_x ref_theta cart_damp pole_damp s"
  have x': "st0 (fst ?s') = min (st0 (fst s)) x_max_m"
    using sub_step_right(1)[of state f_total ref_x ref_theta cart_damp pole_damp t metrics]
      Suc.prems assms(2) s
    by simp
  then have "x_max_m - 1 / 10 ^ 6 \<le> st0 (fst ?s')"
    using Suc.prems by (simp add: min_def)
  from Suc.IH[OF this] x' show ?case by simp
qed

text \<open>
  Claim C4, as stated: whenever \<open>x \<ge> x_max - eps\<close> and the total force is positive, one
  sub-step ends with \<open>x = x_max\<close> exactly. The contact flag uses the tolerance \<open>eps = 1e-6\<close>,
  the clamp that follows compares with \<open>x_max\<close> itself: a cart half a micrometre short of
  the bound is flagged as in contact and is held where it is.
\<close>

theorem C4_upper_contact_counterexample:
  "x_max_m - 1 / 10 ^ 6 \<le> st0 (x_max_m - 1 / (2 * 10 ^ 6), 0, 0, 0) \<and> (0::real) < 1
   \<and> st0 (fst (sub_step 1 0 0 0 0 ((x_max_m - 1 / (2 * 10 ^ 6), 0, 0, 0), 0, Metrics_init)))
       = x_max_m - 1 / (2 * 10 ^ 6)
   \<and> st0 (fst (sub_step 1 0 0 0 0 ((x_max_m - 1 / (2 * 10 ^ 6), 0, 0, 0), 0, Metrics_init)))
       \<noteq> x_max_m"
proof -
  have "st0 (fst (sub_step 1 0 0 0 0 ((x_max_m - 1 / (2 * 10 ^ 6), 0, 0, 0), 0, Metrics_init)))
        = min (x_max_m - 1 / (2 * 10 ^ 6)) x_max_m"
    using sub_step_right(1)[of "(x_max_m - 1 / (2 * 10 ^ 6), 0, 0, 0)" 1 0 0 0 0 0 Metrics_init]
    by simp
  then show ?thesis by simp
qed

text \<open>
  Claim C4, amended: for every state with \<open>x \<ge> x_max - eps\<close> and every total force
  \<open>> 0\<close>, after any positive number of sub-steps (flag, pre-integration clamp, constrained
  \<open>rk4_step\<close>, safety clamp) \<open>x_dot\<close> equals 0 and \<open>x\<close> equals \<open>min x x_max\<close>: exactly \<open>x_max\<close>
  when the cart started at or beyond the bound, and the unchanged starting \<open>x\<close> when it
  started inside the tolerance band below the bound; for every \<open>theta\<close> and \<open>theta_dot\<close>.
\<close>

theorem C4_upper_contact_amended:
  assumes "x_max_m - 1 / 10 ^ 6 \<le> st0 state" and "0 < f_total" and "0 < n"
  shows "st0 (fst (sub_steps n f_total ref_x ref_theta cart_damp pole_damp (state, t, metrics)))
           = min (st0 state) x_max_m
       \<and> st1 (fst (sub_steps n f_total ref_x ref_theta cart_damp pole_damp (state, t, metrics))) = 0"
proof -
  from assms(3) obtain k where "n = Suc k" by (cases n) auto
  then show ?thesis
    using sub_steps_right[of "(state, t, metrics)" f_total k ref_x ref_theta cart_damp pole_damp]
      assms(1,2)
    by simp
qed

theorem C4_upper_contact_witness:
  "x_max_m - 1 / 10 ^ 6 \<le> st0 (x_max_m + 1, 2, 1, 1) \<and> (0::real) < 3 \<and> 0 < P_substeps
   \<and> st0 (fst (sub_steps P_substeps 3 0 0 0 0 ((x_max_m + 1, 2, 1, 1), 0, Metrics_init))) = x_max_m
   \<and> st1 (fst (sub_steps P_substeps 3 0 0 0 0 ((x_max_m + 1, 2, 1, 1), 0, Metrics_init))) = 0"
  using C4_upper_contact_amended[of "(x_max_m + 1, 2, 1, 1)" 3 P_substeps 0 0 0 0 0 Metrics_init]
  by (simp add: P_substeps_def)

subsection \<open>Metrics tracker\<close>

lemma in_band_unfold:
  "in_band (x, x_dot, theta, theta_dot) ref_x ref_theta
     = (\<bar>x - ref_x\<bar> \<le> P_settle_x_thresh \<and> \<bar>wrap_angle (theta - ref_theta)\<bar> \<le> P_settle_theta_thresh)"
  by (simp add: Let_def)

lemma update_settle_time:
  "settle_time (Metrics_update self state t force ref_x ref_theta dt) =
     (case settle_time self of
        Some s \<Rightarrow> Some s
      | None \<Rightarrow>
          (if in_band state ref_x ref_theta then
             (case in_band_since self of
                None \<Rightarrow> None
              | Some since \<Rightarrow> if P_settle_hold_time \<le> t - since then Some since else None)
           else None))"
  by (cases state) (simp add: Let_def split: option.splits)

lemma update_in_band_since:
  "in_band_since (Metrics_update self state t force ref_x ref_theta dt) =
     (case settle_time self of
        Some s \<Rightarrow> in_band_since self
      | None \<Rightarrow>
          (if in_band state ref_x ref_theta then
             (case in_band_since self of None \<Rightarrow> Some t | Some since \<Rightarrow> Some since)
           else None))"
  by (cases state) (simp add: Let_def split: option.splits)

lemma update_energy:
  "energy_abs_impulse (Metrics_update self state t force ref_x ref_theta dt)
     = energy_abs_impulse self + \<bar>force\<bar> * dt"
  by (cases state) (simp add: Let_def split: option.splits)

lemma update_max_abs_theta:
  "max_abs_theta (Metrics_update self state t force ref_x ref_theta dt)
     = max (max_abs_theta self) \<bar>wrap_angle (st2 state - ref_theta)\<bar>"
  by (cases state) (simp add: Let_def split: option.splits)

lemma update_max_abs_x_dev:
  "max_abs_x_dev (Metrics_update self state t force ref_x ref_theta dt)
     = max (max_abs_x_dev self) \<bar>st0 state - ref_x\<bar>"
  by (cases state) (simp add: Let_def split: option.splits)

lemma updates_Nil: "Metrics_updates self [] = self"
  by (simp add: Metrics_updates_def)

lemma updates_Cons: "Metrics_updates self (u # us) = Metrics_updates (Metrics_update_args self u) us"
  by (simp add: Metrics_updates_def)

lemma updates_append: "Metrics_updates self (us @ vs) = Metrics_updates (Metrics_updates self us) vs"
  by (simp add: Metrics_updates_def)

lemma args_settle_time:
  "settle_time (Metrics_update_args self u) =
     (case settle_time self of
        Some s \<Rightarrow> Some s
      | None \<Rightarrow>
          (if args_in_band u then
             (case in_band_since self of
                None \<Rightarrow> None
              | Some since \<Rightarrow> if P_settle_hold_time \<le> args_t u - since then Some since else None)
           else None))"
  by (cases u) (simp add: update_settle_time split: option.splits)

lemma args_in_band_since:
  "in_band_since (Metrics_update_args self u) =
     (case settle_time self of
        Some s \<Rightarrow> in_band_since self
      | None \<Rightarrow>
          (if args_in_band u then
             (case in_band_since self of None \<Rightarrow> Some (args_t u) | Some since \<Rightarrow> Some since)
           else None))"
  by (cases u) (simp add: update_in_band_since split: option.splits)

lemma args_energy:
  "energy_abs_impulse (Metrics_update_args self u) = energy_abs_impulse self + args_impulse u"
  by (cases u) (simp add: update_energy)

lemma args_max_abs_theta: "max_abs_theta self \<le> max_abs_theta (Metrics_update_args self u)"
  by (cases u) (simp add: update_max_abs_theta)

lemma args_max_abs_x_dev: "max_abs_x_dev self \<le> max_abs_x_dev (Metrics_update_args self u)"
  by (cases u) (simp add: update_max_abs_x_dev)

lemma args_impulse_nonneg: "0 \<le> args_dt u \<Longrightarrow> 0 \<le> args_impulse u"
  by (cases u) simp

text \<open>Once a settle time is recorded, no later update changes it.\<close>
lemma settled_stays:
  "settle_time self = Some s \<Longrightarrow> settle_time (Metrics_updates self us) = Some s"
  by (induction us arbitrary: self) (simp_all add: updates_Nil updates_Cons args_settle_time)

text \<open>A run inside the band that is shorter than the hold time keeps its entry marker.\<close>
lemma short_run_marked:
  assumes "settle_time self = None" and "in_band_since self = Some t0"
    and "list_all (\<lambda>u. args_in_band u \<and> args_t u - t0 < P_settle_hold_time) us"
  shows "settle_time (Metrics_updates self us) = None
       \<and> in_band_since (Metrics_updates self us) = Some t0"
  using assms
  by (induction us arbitrary: self)
     (simp_all add: updates_Nil updates_Cons args_settle_time args_in_band_since)

lemma short_run:
  assumes "settle_time self = None" and "in_band_since self = None"
    and "us \<noteq> []" and "args_t (hd us) = t0"
    and "list_all (\<lambda>u. args_in_band u \<and> args_t u - t0 < P_settle_hold_time) us"
  shows "settle_time (Metrics_updates self us) = None
       \<and> in_band_since (Metrics_updates self us) = Some t0"
proof -
  from assms(3) obtain u vs where us: "us = u # vs" by (cases us) auto
  let ?m = "Metrics_update_args self u"
  from assms us have "settle_time ?m = None" and "in_band_since ?m = Some t0"
    by (simp_all add: args_settle_time args_in_band_since)
  moreover from assms(5) us
  have "list_all (\<lambda>u. args_in_band u \<and> args_t u - t0 < P_settle_hold_time) vs" by simp
  ultimately show ?thesis
    using short_run_marked[of ?m t0 vs] us by (simp add: updates_Cons)
qed

text \<open>Updates outside the band clear the entry marker.\<close>
lemma excursion:
  assumes "settle_time self = None" and "us \<noteq> []" and "list_all (\<lambda>u. \<not> args_in_band u) us"
  shows "settle_time (Metrics_updates self us) = None
       \<and> in_band_since (Metrics_updates self us) = None"
  using assms
proof (induction us arbitrary: self)
  case Nil
  then show ?case by simp
next
  case (Cons u us)
  let ?m = "Metrics_update_args self u"
  from Cons.prems have m: "settle_time ?m = None" "in_band_since ?m = None"
    by (simp_all add: args_settle_time args_in_band_since)
  show ?case
  proof (cases "us = []")
    case True
    with m show ?thesis by (simp add: updates_Cons updates_Nil)
  next
    case False
    with Cons.IH[of ?m] m Cons.prems show ?thesis by (simp add: updates_Cons)
  qed
qed

text \<open>A run inside the band that reaches the hold time records the time of its entry.\<close>
lemma long_run_marked:
  assumes "settle_time self = None" and "in_band_since self = Some t0"
    and "list_all args_in_band us"
    and "list_ex (\<lambda>u. P_settle_hold_time \<le> args_t u - t0) us"
  shows "settle_time (Metrics_updates self us) = Some t0"
  using assms
proof (induction us arbitrary: self)
  case Nil
  then show ?case by simp
next
  case (Cons u us)
  let ?m = "Metrics_update_args self u"
  show ?case
  proof (cases "P_settle_hold_time \<le> args_t u - t0")
    case True
    with Cons.prems have "settle_time ?m = Some t0" by (simp add: args_settle_time)
    then show ?thesis by (simp add: updates_Cons settled_stays)
  next
    case False
    with Cons.prems have "settle_time ?m = None" and "in_band_since ?m = Some t0"
      by (simp_all add: args_settle_time args_in_band_since)
    moreover from Cons.prems False have "list_all args_in_band us"
      and "list_ex (\<lambda>u. P_settle_hold_time \<le> args_t u - t0) us" by simp_all
    ultimately show ?thesis using Cons.IH[of ?m] by (simp add: updates_Cons)
  qed
qed

lemma long_run:
  assumes "settle_time self = None" and "in_band_since self = None"
    and "us \<noteq> []" and "args_t (hd us) = t0"
    and "list_all args_in_band us"
    and "list_ex (\<lambda>u. P_settle_hold_time \<le> args_t u - t0) us"
  shows "settle_time (Metrics_updates self us) = Some t0"
proof -
  from assms(3) obtain u vs where us: "us = u # vs" by (cases us) auto
  let ?m = "Metrics_update_args self u"
  from assms us have "settle_time ?m = None" and "in_band_since ?m = Some t0"
    by (simp_all add: args_settle_time args_in_band_since)
  moreover from assms(5) us have "list_all args_in_band vs" by simp
  moreover from assms(4,6) us have "list_ex (\<lambda>u. P_settle_hold_time \<le> args_t u - t0) vs"
    by (simp add: P_settle_hold_time_def)
  ultimately show ?thesis
    using long_run_marked[of ?m t0 vs] us by (simp add: updates_Cons)
qed

lemma hysteresis:
  assumes "settle_time self = None" and "in_band_since self = None"
    and "run1 \<noteq> []" and "args_t (hd run1) = t1"
    and "list_all (\<lambda>u. args_in_band u \<and> args_t u - t1 < P_settle_hold_time) run1"
    and "outs \<noteq> []" and "list_all (\<lambda>u. \<not> args_in_band u) outs"
    and "run2 \<noteq> []" and "args_t (hd run2) = t2"
    and "list_all args_in_band run2"
    and "list_ex (\<lambda>u. P_settle_hold_time \<le> args_t u - t2) run2"
  shows "in_band_since (Metrics_updates self run1) = Some t1"
    and "settle_time (Metrics_updates self (run1 @ outs)) = None"
    and "in_band_since (Metrics_updates self (run1 @ outs)) = None"
    and "settle_time (Metrics_updates self (run1 @ outs @ run2 @ rest)) = Some t2"
proof -
  let ?m1 = "Metrics_updates self run1"
  let ?m2 = "Metrics_updates ?m1 outs"
  let ?m3 = "Metrics_updates ?m2 run2"
  have m1: "settle_time ?m1 = None \<and> in_band_since ?m1 = Some t1"
    using assms(1-5) by (rule short_run)
  then show "in_band_since ?m1 = Some t1" by simp
  have m2: "settle_time ?m2 = None \<and> in_band_since ?m2 = None"
    using m1 assms(6,7) by (simp add: excursion)
  then show "settle_time (Metrics_updates self (run1 @ outs)) = None"
    and "in_band_since (Metrics_updates self (run1 @ outs)) = None"
    by (simp_all add: updates_append)
  have "settle_time ?m3 = Some t2"
    using m2 assms(8-11) by (simp add: long_run)
  then have "settle_time (Metrics_updates ?m3 rest) = Some t2" by (rule settled_stays)
  then show "settle_time (Metrics_updates self (run1 @ outs @ run2 @ rest)) = Some t2"
    by (simp add: updates_append)
qed

lemma in_band_origin: "in_band (0, 0, 0, 0) 0 0"
  by (simp add: Let_def wrap_angle_0 P_settle_x_thresh_def P_settle_theta_thresh_def math_pi_def)

lemma not_in_band_far: "\<not> in_band (1, 0, 0, 0) 0 0"
  by (simp add: Let_def P_settle_x_thresh_def)

text \<open>
  Claim C6: with the hold requirement of 1.0 s, a tracker with no settle time and no entry
  marker that sees a run of in-band updates starting at \<open>t = 5.0\<close> and lasting no longer
  than 0.6 s, then updates outside the band, then a run of in-band updates starting at
  \<open>t = 7.0\<close> that reaches \<open>t \<ge> 8.0\<close>, ends with \<open>settle_time = 7.0\<close> (not 5.0), whatever
  updates follow. The excursion clears the entry marker that the first run had set to 5.0.
\<close>

theorem C6_settling_hysteresis:
  assumes "settle_time self = None" and "in_band_since self = None"
    and "run1 \<noteq> []" and "args_t (hd run1) = 5"
    and "list_all (\<lambda>u. args_in_band u \<and> args_t u \<le> 5 + 6 / 10) run1"
    and "outs \<noteq> []" and "list_all (\<lambda>u. \<not> args_in_band u) outs"
    and "run2 \<noteq> []" and "args_t (hd run2) = 7"
    and "list_all args_in_band run2"
    and "list_ex (\<lambda>u. 7 + 1 \<le> args_t u) run2"
  shows "settle_time (Metrics_updates self (run1 @ outs @ run2 @ rest)) = Some 7
       \<and> in_band_since (Metrics_updates self run1) = Some 5
       \<and> settle_time (Metrics_updates self (run1 @ outs)) = None
       \<and> in_band_since (Metrics_updates self (run1 @ outs)) = None"
proof -
  have r1: "list_all (\<lambda>u. args_in_band u \<and> args_t u - 5 < P_settle_hold_time) run1"
    using assms(5) by (auto simp add: list_all_iff P_settle_hold_time_def)
  have r2: "list_ex (\<lambda>u. P_settle_hold_time \<le> args_t u - 7) run2"
    using assms(11) by (auto simp add: list_ex_iff P_settle_hold_time_def)
  note h = assms(1-4) r1 assms(6-10) r2
  show ?thesis
    using hysteresis(1)[OF h] hysteresis(2)[OF h] hysteresis(3)[OF h] hysteresis(4)[OF h, of rest]
    by simp
qed

theorem C6_settling_hysteresis_witness:
  "settle_time (Metrics_reset Metrics_init) = None \<and> in_band_since (Metrics_reset Metrics_init) = None
   \<and> list_all (\<lambda>u. args_in_band u \<and> args_t u \<le> 5 + 6 / 10)
        [((0, 0, 0, 0), 5, 0, 0, 0, 1 / 240), ((0, 0, 0, 0), 56 / 10, 0, 0, 0, 1 / 240)]
   \<and> list_all (\<lambda>u. \<not> args_in_band u) [((1, 0, 0, 0), 6, 0, 0, 0, 1 / 240)]
   \<and> list_all args_in_band
        [((0, 0, 0, 0), 7, 0, 0, 0, 1 / 240), ((0, 0, 0, 0), 75 / 10, 0, 0, 0, 1 / 240),
         ((0, 0, 0, 0), 8, 0, 0, 0, 1 / 240)]
   \<and> list_ex (\<lambda>u. 7 + 1 \<le> args_t u)
        [((0, 0, 0, 0), 7, 0, 0, 0, 1 / 240), ((0, 0, 0, 0), 75 / 10, 0, 0, 0, 1 / 240),
         ((0, 0, 0, 0), 8, 0, 0, 0, 1 / 240)]
   \<and> settle_time (Metrics_updates (Metrics_reset Metrics_init)
        ([((0, 0, 0, 0), 5, 0, 0, 0, 1 / 240), ((0, 0, 0, 0), 56 / 10, 0, 0, 0, 1 / 240)]
         @ [((1, 0, 0, 0), 6, 0, 0, 0, 1 / 240)]
         @ [((0, 0, 0, 0), 7, 0, 0, 0, 1 / 240), ((0, 0, 0, 0), 75 / 10, 0, 0, 0, 1 / 240),
            ((0, 0, 0, 0), 8, 0, 0, 0, 1 / 240)]
         @ [])) = Some 7"
  using C6_settling_hysteresis[of "Metrics_reset Metrics_init"
      "[((0, 0, 0, 0), 5, 0, 0, 0, 1 / 240), ((0, 0, 0, 0), 56 / 10, 0, 0, 0, 1 / 240)]"
      "[((1, 0, 0, 0), 6, 0, 0, 0, 1 / 240)]"
      "[((0, 0, 0, 0), 7, 0, 0, 0, 1 / 240), ((0, 0, 0, 0), 75 / 10, 0, 0, 0, 1 / 240),
        ((0, 0, 0, 0), 8, 0, 0, 0, 1 / 240)]"
      "[]"]
  by (simp add: Metrics_reset_def Metrics_init_def in_band_origin not_in_band_far del: in_band.simps)

lemma updates_max_abs_theta: "max_abs_theta self \<le> max_abs_theta (Metrics_updates self us)"
proof (induction us arbitrary: self)
  case Nil
  show ?case by (simp add: updates_Nil)
next
  case (Cons u us)
  have "max_abs_theta self \<le> max_abs_theta (Metrics_update_args self u)"
    by (rule args_max_abs_theta)
  also have "\<dots> \<le> max_abs_theta (Metrics_updates (Metrics_update_args self u) us)"
    by (rule Cons.IH)
  finally show ?case by (simp add: updates_Cons)
qed

lemma updates_max_abs_x_dev: "max_abs_x_dev self \<le> max_abs_x_dev (Metrics_updates self us)"
proof (induction us arbitrary: self)
  case Nil
  show ?case by (simp add: updates_Nil)
next
  case (Cons u us)
  have "max_abs_x_dev self \<le> max_abs_x_dev (Metrics_update_args self u)"
    by (rule args_max_abs_x_dev)
  also have "\<dots> \<le> max_abs_x_dev (Metrics_updates (Metrics_update_args self u) us)"
    by (rule Cons.IH)
  finally show ?case by (simp add: updates_Cons)
qed

lemma updates_energy:
  "energy_abs_impulse (Metrics_updates self us)
     = energy_abs_impulse self + sum_list (map args_impulse us)"
  by (induction us arbitrary: self) (simp_all add: updates_Nil updates_Cons args_energy)

lemma sum_impulse_nonneg:
  "list_all (\<lambda>u. 0 \<le> args_dt u) us \<Longrightarrow> 0 \<le> sum_list (map args_impulse us)"
  by (induction us) (simp_all add: args_impulse_nonneg)

text \<open>
  The orchestrator's loop hands \<open>update\<close> the fixed step \<open>P.dt = 1 / 240\<close> on every pass.
\<close>

lemma sub_step_metrics:
  "snd (snd (sub_step f_total ref_x ref_theta cart_damp pole_damp (state, t, metrics)))
     = Metrics_update metrics
         (fst (sub_step f_total ref_x ref_theta cart_damp pole_damp (state, t, metrics)))
         (t + P_dt) f_total ref_x ref_theta P_dt"
  by (simp add: Let_def del: Metrics_update.simps)

lemma sub_step_tracker:
  "max_abs_theta (snd (snd s))
     \<le> max_abs_theta (snd (snd (sub_step f_total ref_x ref_theta cart_damp pole_damp s)))"
  "max_abs_x_dev (snd (snd s))
     \<le> max_abs_x_dev (snd (snd (sub_step f_total ref_x ref_theta cart_damp pole_damp s)))"
  "energy_abs_impulse (snd (snd (sub_step f_total ref_x ref_theta cart_damp pole_damp s)))
     = energy_abs_impulse (snd (snd s)) + \<bar>f_total\<bar> * P_dt"
  by (cases s; simp only: sub_step_metrics snd_conv update_energy update_max_abs_theta
        update_max_abs_x_dev max.cobounded1)+

lemma sub_steps_tracker:
  "max_abs_theta (snd (snd s))
     \<le> max_abs_theta (snd (snd (sub_steps n f_total ref_x ref_theta cart_damp pole_damp s)))
   \<and> max_abs_x_dev (snd (snd s))
     \<le> max_abs_x_dev (snd (snd (sub_steps n f_total ref_x ref_theta cart_damp pole_damp s)))
   \<and> energy_abs_impulse (snd (snd (sub_steps n f_total ref_x ref_theta cart_damp pole_damp s)))
     = energy_abs_impulse (snd (snd s)) + of_nat n * (\<bar>f_total\<bar> * P_dt)"
proof (induction n arbitrary: s)
  case 0
  show ?case by simp
next
  case (Suc n)
  let ?s' = "sub_step f_total ref_x ref_theta cart_damp pole_damp s"
  from Suc.IH[of ?s']
    sub_step_tracker[where s = s and f_total = f_total and ref_x = ref_x
      and ref_theta = ref_theta and cart_damp = cart_damp and pole_damp = pole_damp]
  show ?case by (simp add: algebra_simps)
qed

lemma sub_steps_energy_mono:
  "energy_abs_impulse (snd (snd s))
     \<le> energy_abs_impulse (snd (snd (sub_steps n f_total ref_x ref_theta cart_damp pole_damp s)))"
proof -
  have "0 \<le> of_nat n * (\<bar>f_total\<bar> * P_dt)" by (simp add: P_dt_def)
  with sub_steps_tracker[of s n f_total ref_x ref_theta cart_damp pole_damp]
  show ?thesis by simp
qed

text \<open>
  Claim C7: across every sequence of updates since the last reset, \<open>max_abs_theta\<close> and
  \<open>max_abs_x_dev\<close> never decrease, and \<open>energy_abs_impulse\<close> equals the sum of
  \<open>|force_i| * dt_i\<close> over the updates and never decreases. The step \<open>dt_i\<close> is the caller's
  to choose and is taken non-negative, as the specification leaves \<open>dt > 0\<close> to the caller;
  in the orchestrator's own loop, which always passes \<open>P.dt\<close>, all of it holds without any
  condition, for every number of sub-steps.
\<close>

theorem C7_metrics_monotone:
  "max_abs_theta self \<le> max_abs_theta (Metrics_updates self us)
   \<and> max_abs_x_dev self \<le> max_abs_x_dev (Metrics_updates self us)
   \<and> (list_all (\<lambda>u. 0 \<le> args_dt u) us
        \<longrightarrow> energy_abs_impulse self \<le> energy_abs_impulse (Metrics_updates self us))
   \<and> energy_abs_impulse (Metrics_updates self us)
       = energy_abs_impulse self + sum_list (map args_impulse us)
   \<and> energy_abs_impulse (Metrics_updates (Metrics_reset self) us)
       = sum_list (map args_impulse us)
   \<and> max_abs_theta metrics
       \<le> max_abs_theta (snd (snd (sub_steps n f_total ref_x ref_theta cart_damp pole_damp
                                     (state, t, metrics))))
   \<and> max_abs_x_dev metrics
       \<le> max_abs_x_dev (snd (snd (sub_steps n f_total ref_x ref_theta cart_damp pole_damp
                                     (state, t, metrics))))
   \<and> energy_abs_impulse metrics
       \<le> energy_abs_impulse (snd (snd (sub_steps n f_total ref_x ref_theta cart_damp pole_damp
                                          (state, t, metrics))))
   \<and> energy_abs_impulse (snd (snd (sub_steps n f_total ref_x ref_theta cart_damp pole_damp
                                       (state, t, metrics))))
       = energy_abs_impulse metrics + of_nat n * (\<bar>f_total\<bar> * P_dt)"
  using updates_max_abs_theta[of self us] updates_max_abs_x_dev[of self us]
    sum_impulse_nonneg[of us]
    sub_steps_tracker[of "(state, t, metrics)" n f_total ref_x ref_theta cart_damp pole_damp]
    sub_steps_energy_mono[of "(state, t, metrics)" n f_total ref_x ref_theta cart_damp pole_damp]
  by (simp add: updates_energy Metrics_reset_def)

theorem C7_metrics_monotone_witness:
  "list_all (\<lambda>u. 0 \<le> args_dt u)
     [((0, 0, 0, 0), 1 / 240, 2, 0, 0, 1 / 240), ((1, 0, 0, 0), 2 / 240, - 3, 0, 0, 1 / 240)]
   \<and> energy_abs_impulse (Metrics_reset Metrics_init)
       \<le> energy_abs_impulse (Metrics_updates (Metrics_reset Metrics_init)
            [((0, 0, 0, 0), 1 / 240, 2, 0, 0, 1 / 240), ((1, 0, 0, 0), 2 / 240, - 3, 0, 0, 1 / 240)])
   \<and> energy_abs_impulse (Metrics_updates (Metrics_reset Metrics_init)
        [((0, 0, 0, 0), 1 / 240, 2, 0, 0, 1 / 240), ((1, 0, 0, 0), 2 / 240, - 3, 0, 0, 1 / 240)])
       = 5 / 240
   \<and> max_abs_x_dev (Metrics_reset Metrics_init)
       \<le> max_abs_x_dev (Metrics_updates (Metrics_reset Metrics_init)
            [((0, 0, 0, 0), 1 / 240, 2, 0, 0, 1 / 240), ((1, 0, 0, 0), 2 / 240, - 3, 0, 0, 1 / 240)])
   \<and> energy_abs_impulse
        (snd (snd (sub_steps P_substeps 3 0 0 0 0 ((0, 0, 0, 0), 0, Metrics_reset Metrics_init))))
       = 6 / 240"
  using C7_metrics_monotone[of "Metrics_reset Metrics_init"
      "[((0, 0, 0, 0), 1 / 240, 2, 0, 0, 1 / 240), ((1, 0, 0, 0), 2 / 240, - 3, 0, 0, 1 / 240)]"
      "Metrics_reset Metrics_init" P_substeps 3 0 0 0 0 "(0, 0, 0, 0)" 0]
  by (simp add: Metrics_reset_def Metrics_init_def P_substeps_def P_dt_def)

end
